theory Spec2Isabelle
  imports Main
begin

section \<open>Text primitives of the host language\<close>

text \<open>
  Message texts, passcodes and callback payloads are Python \<open>str\<close> values. They are
  modelled as \<open>string\<close>, one \<open>char\<close> per code point, which covers the code points
  0 to 255; the character classes below are the ones Python 3 uses on that range.
\<close>

definition code_point :: "char \<Rightarrow> nat" where
  "code_point c = of_char c"

text \<open>\<open>\w\<close> of a \<open>str\<close> pattern: alphanumeric code points and the underscore.\<close>

definition word_char :: "char \<Rightarrow> bool" where
  "word_char c =
     (let n = code_point c in
        (48 \<le> n \<and> n \<le> 57) \<or> (65 \<le> n \<and> n \<le> 90) \<or> n = 95 \<or> (97 \<le> n \<and> n \<le> 122)
        \<or> n = 170 \<or> n = 178 \<or> n = 179 \<or> n = 181 \<or> n = 185 \<or> n = 186
        \<or> (188 \<le> n \<and> n \<le> 190) \<or> (192 \<le> n \<and> n \<le> 214)
        \<or> (216 \<le> n \<and> n \<le> 246) \<or> (248 \<le> n \<and> n \<le> 255))"

text \<open>\<open>str.isspace\<close>, the separator set of \<open>str.split()\<close>.\<close>

definition is_space :: "char \<Rightarrow> bool" where
  "is_space c =
     (let n = code_point c in
        (9 \<le> n \<and> n \<le> 13) \<or> (28 \<le> n \<and> n \<le> 32) \<or> n = 133 \<or> n = 160)"

text \<open>The line boundaries of \<open>str.splitlines\<close>.\<close>

definition is_linebreak :: "char \<Rightarrow> bool" where
  "is_linebreak c =
     (let n = code_point c in
        (10 \<le> n \<and> n \<le> 13) \<or> (28 \<le> n \<and> n \<le> 30) \<or> n = 133)"

text \<open>\<open>str.lower\<close>, character by character.\<close>

definition lower_chr :: "char \<Rightarrow> char" where
  "lower_chr c =
     (let n = code_point c in
        if (65 \<le> n \<and> n \<le> 90) \<or> (192 \<le> n \<and> n \<le> 214) \<or> (216 \<le> n \<and> n \<le> 222)
        then char_of (n + 32) else c)"

definition lower :: "string \<Rightarrow> string" where
  "lower s = map lower_chr s"

text \<open>
  \<open>PASSCODE_EXP = re.compile(r'^\w{5,35}$')\<close> used through \<open>match\<close>: five to
  thirty-five word characters; \<open>$\<close> also matches just before one final newline.
\<close>

definition word_run :: "string \<Rightarrow> bool" where
  "word_run s = (5 \<le> length s \<and> length s \<le> 35 \<and> list_all word_char s)"

definition PASSCODE_EXP_match :: "string \<Rightarrow> bool" where
  "PASSCODE_EXP_match s =
     (word_run s \<or> (s \<noteq> [] \<and> last s = CHR 0x0A \<and> word_run (butlast s)))"

section \<open>The durable store (libsqlite.py)\<close>

datatype error = ValueError | IndexError | IntegrityError

text \<open>A row of table \<open>code\<close>: \<open>str\<close> (primary key), \<open>message_id\<close>, \<open>fr\<close>.\<close>

record code_row =
  str :: string
  message_id :: int
  fr :: int

text \<open>The dataclass \<open>CodeStatus\<close>; its constructor stores \<open>bool(fr)\<close>.\<close>

record CodeStatus =
  status_message_id :: int
  FR :: bool

definition mk_CodeStatus :: "int \<Rightarrow> int \<Rightarrow> CodeStatus" where
  "mk_CodeStatus mid f = \<lparr>status_message_id = mid, FR = (f \<noteq> 0)\<rparr>"

text \<open>
  The database file: the three tables, rows in insertion order. Table \<open>users\<close> holds
  (\<open>id\<close>, \<open>authorized\<close>) with \<open>id\<close> the primary key; \<open>history\<close> holds
  (\<open>str\<close>, \<open>send_by\<close>) and has no key.
\<close>

record PasscodeTracker =
  code_tbl :: "code_row list"
  users_tbl :: "(int \<times> int) list"
  history_tbl :: "(string \<times> int) list"

definition query :: "PasscodeTracker \<Rightarrow> string \<Rightarrow> CodeStatus option" where
  "query db c =
     (case find (\<lambda>r. str r = lower c) (code_tbl db) of
        None \<Rightarrow> None
      | Some r \<Rightarrow> Some (mk_CodeStatus (message_id r) (fr r)))"

definition update :: "PasscodeTracker \<Rightarrow> string \<Rightarrow> bool \<Rightarrow> PasscodeTracker" where
  "update db c f =
     db\<lparr>code_tbl :=
          map (\<lambda>r. if str r = lower c then r\<lparr>fr := (if f then 1 else 0)\<rparr> else r) (code_tbl db)\<rparr>"

text \<open>\<open>INSERT\<close> into a table with a primary key fails when the key is present.\<close>

definition insert_code :: "PasscodeTracker \<Rightarrow> string \<Rightarrow> int \<Rightarrow> error + PasscodeTracker" where
  "insert_code db c mid =
     (if list_ex (\<lambda>r. str r = lower c) (code_tbl db) then Inl IntegrityError
      else Inr (db\<lparr>code_tbl := code_tbl db @ [\<lparr>str = lower c, message_id = mid, fr = 0\<rparr>]\<rparr>))"

definition insert_history :: "PasscodeTracker \<Rightarrow> string \<Rightarrow> int \<Rightarrow> PasscodeTracker" where
  "insert_history db s sender = db\<lparr>history_tbl := history_tbl db @ [(lower s, sender)]\<rparr>"

text \<open>
  The \<open>LIKE\<close> operator of the database engine: \<open>%\<close> stands for any run of
  characters, \<open>_\<close> for any one character, and the letters A to Z compare equal to
  their lower-case forms.
\<close>

definition like_fold :: "char \<Rightarrow> char" where
  "like_fold c = (let n = code_point c in if 65 \<le> n \<and> n \<le> 90 then char_of (n + 32) else c)"

fun like_match :: "string \<Rightarrow> string \<Rightarrow> bool" where
  "like_match [] t = (t = [])"
| "like_match (p # ps) [] = (p = CHR ''%'' \<and> like_match ps [])"
| "like_match (p # ps) (c # cs) =
     (if p = CHR ''%'' then like_match ps (c # cs) \<or> like_match (p # ps) cs
      else (p = CHR ''_'' \<or> like_fold p = like_fold c) \<and> like_match ps cs)"

text \<open>\<open>fetchone\<close> gives the first matching row; its single column is \<open>send_by\<close>.\<close>

definition query_history :: "PasscodeTracker \<Rightarrow> string \<Rightarrow> int option" where
  "query_history db s =
     (case find (\<lambda>r. like_match (lower s @ ''%'') (fst r)) (history_tbl db) of
        None \<Rightarrow> None
      | Some r \<Rightarrow> Some (snd r))"

definition query_all_user :: "PasscodeTracker \<Rightarrow> int list" where
  "query_all_user db = map fst (filter (\<lambda>r. snd r = 1) (users_tbl db))"

definition insert_user :: "PasscodeTracker \<Rightarrow> int \<Rightarrow> error + PasscodeTracker" where
  "insert_user db user_id =
     (if list_ex (\<lambda>r. fst r = user_id) (users_tbl db) then Inl IntegrityError
      else Inr (db\<lparr>users_tbl := users_tbl db @ [(user_id, 1)]\<rparr>))"

definition delete_user :: "PasscodeTracker \<Rightarrow> int \<Rightarrow> PasscodeTracker" where
  "delete_user db user_id = db\<lparr>users_tbl := filter (\<lambda>r. fst r \<noteq> user_id) (users_tbl db)\<rparr>"

section \<open>Splitting, joining and numbers\<close>

text \<open>\<open>str.splitlines(False)\<close>: the argument is the line read so far.\<close>

fun splitlines_from :: "string \<Rightarrow> string \<Rightarrow> string list" where
  "splitlines_from cur [] = (if cur = [] then [] else [cur])"
| "splitlines_from cur [c] = (if is_linebreak c then [cur] else [cur @ [c]])"
| "splitlines_from cur (c # d # ds) =
     (if c = CHR 0x0D \<and> d = CHR 0x0A then cur # splitlines_from [] ds
      else if is_linebreak c then cur # splitlines_from [] (d # ds)
      else splitlines_from (cur @ [c]) (d # ds))"

definition splitlines :: "string \<Rightarrow> string list" where
  "splitlines s = splitlines_from [] s"

text \<open>\<open>str.split()\<close> with no separator: the argument is the word read so far.\<close>

fun split_from :: "string \<Rightarrow> string \<Rightarrow> string list" where
  "split_from w [] = (if w = [] then [] else [w])"
| "split_from w (c # cs) =
     (if is_space c then (if w = [] then split_from [] cs else w # split_from [] cs)
      else split_from (w @ [c]) cs)"

definition split :: "string \<Rightarrow> string list" where
  "split s = split_from [] s"

fun join :: "string \<Rightarrow> string list \<Rightarrow> string" where
  "join sep [] = []"
| "join sep [x] = x"
| "join sep (x # y # ys) = x @ sep @ join sep (y # ys)"

definition startswith :: "string \<Rightarrow> char \<Rightarrow> bool" where
  "startswith s c = (case s of [] \<Rightarrow> False | d # _ \<Rightarrow> d = c)"

text \<open>\<open>str(n)\<close> and the \<open>{n}\<close> of an f-string, for an integer.\<close>

definition digit_chr :: "nat \<Rightarrow> char" where
  "digit_chr d = char_of (48 + d)"

function str_nat :: "nat \<Rightarrow> string" where
  "str_nat n = (if n < 10 then [digit_chr n] else str_nat (n div 10) @ [digit_chr (n mod 10)])"
  by pat_completeness auto
termination
  by (relation "measure id") auto

declare str_nat.simps [simp del]

definition str_int :: "int \<Rightarrow> string" where
  "str_int i = (if i < 0 then CHR ''-'' # str_nat (nat (- i)) else str_nat (nat i))"

text \<open>
  \<open>int(s)\<close> for a \<open>str\<close>: surrounding white space is dropped, then an optional sign,
  then decimal digits, single underscores allowed between digits. Anything else
  raises \<open>ValueError\<close>, here \<open>None\<close>.
\<close>

definition is_digit :: "char \<Rightarrow> bool" where
  "is_digit c = (let n = code_point c in 48 \<le> n \<and> n \<le> 57)"

definition int_space :: "char \<Rightarrow> bool" where
  "int_space c = (let n = code_point c in (9 \<le> n \<and> n \<le> 13) \<or> n = 32 \<or> n = 133 \<or> n = 160)"

fun int_body :: "string \<Rightarrow> bool" where
  "int_body [] = False"
| "int_body [c] = is_digit c"
| "int_body (c # d # cs) =
     (is_digit c \<and> (if d = CHR ''_'' then int_body cs else int_body (d # cs)))"

definition parse_nat :: "string \<Rightarrow> nat" where
  "parse_nat s = foldl (\<lambda>a c. 10 * a + (code_point c - 48)) 0 (filter (\<lambda>c. c \<noteq> CHR ''_'') s)"

definition py_int :: "string \<Rightarrow> int option" where
  "py_int s =
     (case dropWhile int_space (rev (dropWhile int_space (rev s))) of
        [] \<Rightarrow> None
      | c # cs \<Rightarrow>
          if c = CHR ''-'' then (if int_body cs then Some (- int (parse_nat cs)) else None)
          else if c = CHR ''+'' then (if int_body cs then Some (int (parse_nat cs)) else None)
          else if int_body (c # cs) then Some (int (parse_nat (c # cs))) else None)"

section \<open>The bot (bot.py)\<close>

subsection \<open>State and effects\<close>

text \<open>
  What the handlers do through the chat transport is recorded in order. \<open>Reply\<close> is
  \<open>msg.reply\<close> to the chat of the incoming message, \<open>SendMessage\<close> is
  \<open>client.send_message\<close>, \<open>EditMessageText\<close> is \<open>client.edit_message_text\<close>,
  \<open>EditReplyMarkup\<close> is \<open>edit_reply_markup\<close> on the message that carries the
  pressed button, \<open>Answer\<close> is \<open>CallbackQuery.answer\<close>, \<open>EditStatus\<close> is
  \<open>status_message.edit\<close> and \<open>Sleep\<close> is \<open>asyncio.sleep\<close>.
\<close>

datatype button = InlineKeyboardButton (button_text: string) (callback_data: string)

type_synonym markup = "button list list"

datatype parse_mode = Default | Html | Markdown

datatype action =
    Reply int string "markup option"
  | SendMessage int string parse_mode "markup option"
  | EditMessageText int int string parse_mode
  | EditReplyMarkup "markup option"
  | Answer "string option"
  | EditStatus string
  | Sleep nat

text \<open>
  The cache: the set \<open>tracker_user\<close> (the decimal text of an id stands for the id)
  and, for each user, the instant at which the key \<open>flood_<id>\<close> expires, if set.
\<close>

record Redis =
  tracker_user :: "int set"
  flood :: "int \<Rightarrow> nat option"

text \<open>
  The fields of \<open>Tracker\<close>, the effects recorded so far, and the id the transport
  gives to the next message sent with \<open>client.send_message\<close>.
\<close>

record Tracker =
  conn :: PasscodeTracker
  redis :: Redis
  channel_id :: int
  password :: string
  owners :: "int list"
  outbox :: "action list"
  next_message_id :: int

definition emit :: "action \<Rightarrow> Tracker \<Rightarrow> Tracker" where
  "emit a t = t\<lparr>outbox := outbox t @ [a]\<rparr>"

definition send_message ::
  "Tracker \<Rightarrow> int \<Rightarrow> string \<Rightarrow> parse_mode \<Rightarrow> markup option \<Rightarrow> int \<times> Tracker" where
  "send_message t chat body mode mk =
     (next_message_id t,
      t\<lparr>outbox := outbox t @ [SendMessage chat body mode mk],
        next_message_id := next_message_id t + 1\<rparr>)"

subsection \<open>Authorization cache and flood guard\<close>

definition query_authorized_user :: "Tracker \<Rightarrow> int \<Rightarrow> bool" where
  "query_authorized_user t user_id = (user_id \<in> tracker_user (redis t))"

text \<open>
  Tasks awaited together with \<open>asyncio.gather\<close> all run; they touch different parts
  of the state, and the first exception is raised to the handler afterwards.
\<close>

definition insert_authorized_user :: "Tracker \<Rightarrow> int \<Rightarrow> error option \<times> Tracker" where
  "insert_authorized_user t user_id =
     (let r = (redis t)\<lparr>tracker_user := Set.insert user_id (tracker_user (redis t))\<rparr> in
      case insert_user (conn t) user_id of
        Inl e \<Rightarrow> (Some e, t\<lparr>redis := r\<rparr>)
      | Inr db \<Rightarrow> (None, t\<lparr>conn := db, redis := r\<rparr>))"

definition delete_authorized_user :: "Tracker \<Rightarrow> int \<Rightarrow> Tracker" where
  "delete_authorized_user t user_id =
     t\<lparr>conn := delete_user (conn t) user_id,
       redis := (redis t)\<lparr>tracker_user := tracker_user (redis t) - {user_id}\<rparr>\<rparr>"

text \<open>\<open>_load_users\<close>: the set is rebuilt from the stored users and the owners.\<close>

definition load_users :: "Tracker \<Rightarrow> Tracker" where
  "load_users t =
     t\<lparr>redis := (redis t)\<lparr>tracker_user := set (query_all_user (conn t)) \<union> set (owners t)\<rparr>\<rparr>"

text \<open>A key is read as absent from its expiry instant on.\<close>

definition flood_get :: "Tracker \<Rightarrow> nat \<Rightarrow> int \<Rightarrow> bool" where
  "flood_get t now user_id =
     (case flood (redis t) user_id of None \<Rightarrow> False | Some expiry \<Rightarrow> now < expiry)"

definition flood_check :: "Tracker \<Rightarrow> nat \<Rightarrow> int \<Rightarrow> nat \<Rightarrow> bool \<times> Tracker" where
  "flood_check t now user_id timeout =
     (if flood_get t now user_id then (True, t)
      else (False, t\<lparr>redis := (redis t)\<lparr>flood := (flood (redis t))(user_id \<mapsto> now + timeout)\<rparr>\<rparr>))"

subsection \<open>Passcode submission\<close>

text \<open>
  The three tasks gathered after a new passcode is posted: \<open>insert\<close>,
  \<open>insert_history\<close> and the hook \<open>hook_send_passcode\<close>, which does nothing.
\<close>

definition store_passcode :: "Tracker \<Rightarrow> string \<Rightarrow> int \<Rightarrow> int \<Rightarrow> error option \<times> Tracker" where
  "store_passcode t passcode mid chat =
     (case insert_code (conn t) passcode mid of
        Inl e \<Rightarrow> (Some e, t\<lparr>conn := insert_history (conn t) passcode chat\<rparr>)
      | Inr db \<Rightarrow> (None, t\<lparr>conn := insert_history db passcode chat\<rparr>))"

definition parse_codes :: "string list \<Rightarrow> string \<Rightarrow> string" where
  "parse_codes passcodes header =
     (if passcodes = [] then []
      else header @ '' codes:'' @ [CHR 0x0A] @ ''<code>''
           @ join (''</code>'' @ [CHR 0x0A] @ ''<code>'') passcodes @ ''</code>'' @ [CHR 0x0A])"

record loop_state =
  count :: nat
  error_codes :: "string list"
  duplicate_codes :: "string list"
  status_message :: bool

definition loop_init :: loop_state where
  "loop_init = \<lparr>count = 0, error_codes = [], duplicate_codes = [], status_message = False\<rparr>"

text \<open>The \<open>for\<close> loop of \<open>handle_multiline_passcode\<close>; an exception ends it.\<close>

fun multiline_loop ::
  "int \<Rightarrow> string list \<Rightarrow> loop_state \<Rightarrow> Tracker \<Rightarrow> error option \<times> loop_state \<times> Tracker" where
  "multiline_loop chat [] ls t = (None, ls, t)"
| "multiline_loop chat (passcode # rest) ls t =
     (if passcode = [] \<or> startswith passcode CHR ''#'' then multiline_loop chat rest ls t
      else if 35 < length passcode \<or> \<not> PASSCODE_EXP_match passcode
      then multiline_loop chat rest (ls\<lparr>error_codes := error_codes ls @ [passcode]\<rparr>) t
      else if query (conn t) passcode = None
      then (let t1 = (if status_message ls then t
                      else emit (Reply chat ''Sending passcode (interval: 2s)'' None) t);
                (mid, t2) = send_message t1 (channel_id t1)
                              (''<code>'' @ passcode @ ''</code>'') Html None;
                ls' = ls\<lparr>count := count ls + 1, status_message := True\<rparr>;
                (e, t3) = store_passcode t2 passcode mid chat;
                t4 = emit (Sleep 2) t3
            in case e of
                 Some err \<Rightarrow> (Some err, ls', t4)
               | None \<Rightarrow> multiline_loop chat rest ls' t4)
      else multiline_loop chat rest (ls\<lparr>duplicate_codes := duplicate_codes ls @ [passcode]\<rparr>) t)"

definition summary :: "loop_state \<Rightarrow> string" where
  "summary ls =
     parse_codes (error_codes ls) ''Error'' @ [CHR 0x0A]
     @ parse_codes (duplicate_codes ls) ''Duplicate'' @ [CHR 0x0A]
     @ ''Success send: '' @ str_int (int (count ls)) @ '' passcode(s)''"

definition handle_multiline_passcode :: "Tracker \<Rightarrow> int \<Rightarrow> string \<Rightarrow> error option \<times> Tracker" where
  "handle_multiline_passcode t chat text =
     (case multiline_loop chat (splitlines text) loop_init t of
        (Some err, ls, t') \<Rightarrow> (Some err, t')
      | (None, ls, t') \<Rightarrow>
          (None, emit (if status_message ls then EditStatus (summary ls)
                       else Reply chat (summary ls) None) t'))"

definition toggle_button :: "string \<Rightarrow> CodeStatus \<Rightarrow> button" where
  "toggle_button text result =
     InlineKeyboardButton ''Process''
       ((if FR result then ''u'' else ''m'') @ '' '' @ text @ '' ''
        @ str_int (status_message_id result))"

definition handle_passcode :: "Tracker \<Rightarrow> int \<Rightarrow> string \<Rightarrow> error option \<times> Tracker" where
  "handle_passcode t chat text =
     (if CHR 0x0A \<in> set text then handle_multiline_passcode t chat text
      else if 30 < length text then (None, emit (Reply chat ''Passcode length exceed'' None) t)
      else if \<not> PASSCODE_EXP_match text
      then (None, emit (Reply chat ''Passcode format error'' None) t)
      else case query (conn t) text of
             None \<Rightarrow>
               (let (mid, t1) = send_message t (channel_id t)
                                  (''<code>'' @ text @ ''</code>'') Html None;
                    (e, t2) = store_passcode t1 text mid chat
                in case e of
                     Some err \<Rightarrow> (Some err, t2)
                   | None \<Rightarrow> (None, emit (Reply chat ''Send successful'' None) t2))
           | Some result \<Rightarrow>
               (None,
                emit (Reply chat
                       (''Passcode exist, ''
                        @ (if \<not> FR result then ''mark passcode'' else ''undo mark'')
                        @ '' as FR?'')
                       (Some [[toggle_button text result]])) t))"

subsection \<open>Button presses\<close>

definition account_callback :: "Tracker \<Rightarrow> string \<Rightarrow> int \<Rightarrow> error option \<times> Tracker" where
  "account_callback t sub_arg user_id =
     (if sub_arg = ''grant'' then
        (let (e, answer_msg, t1) =
               (if query_authorized_user t user_id then (None, Some ''Already granted'', t)
                else (let (e, t') = insert_authorized_user t user_id in (e, None, t')))
         in case e of
              Some err \<Rightarrow> (Some err, t1)
            | None \<Rightarrow>
                (let t2 = emit (EditReplyMarkup
                                  (Some [[InlineKeyboardButton ''Revoke''
                                            (''account revoke '' @ str_int user_id)]])) t1;
                     t3 = emit (Answer answer_msg) t2;
                     (mid, t4) = send_message t3 user_id ''Access granted'' Default None
                 in (None, t4)))
      else if sub_arg = ''deny'' then
        (if query_authorized_user t user_id
         then (None, emit (Answer (Some ''Out of dated'')) (emit (EditReplyMarkup None) t))
         else (let t1 = emit (EditReplyMarkup None) t;
                   (mid, t2) = send_message t1 user_id ''Access denied'' Default None
               in (None, emit (Answer None) t2)))
      else if sub_arg = ''revoke'' then
        (let t1 = delete_authorized_user t user_id;
             t2 = emit (EditReplyMarkup None) t1;
             (mid, t3) = send_message t2 user_id ''Access revoked'' Default None
         in (None, emit (Answer None) t3))
      else (None, t))"

text \<open>
  The last branch gathers \<open>edit_message_text\<close>, \<open>update\<close>, the hook
  \<open>hook_mark_full_redeemed_passcode\<close> (which does nothing),
  \<open>edit_message_reply_markup\<close> and \<open>answer\<close>.
\<close>

definition handle_callback_query :: "Tracker \<Rightarrow> string \<Rightarrow> error option \<times> Tracker" where
  "handle_callback_query t data =
     (let args = split data in
      if length args \<noteq> 3 then
        (case args of
           [] \<Rightarrow> (Some IndexError, t)
         | a # _ \<Rightarrow>
             if a = ''ignore'' then (None, emit (Answer None) (emit (EditReplyMarkup None) t))
             else (None, t))
      else if args ! 0 = ''account'' then
        (case py_int (args ! 2) of
           None \<Rightarrow> (Some ValueError, t)
         | Some user_id \<Rightarrow> account_callback t (args ! 1) user_id)
      else
        (let msg_text = (if args ! 0 = ''m'' then ''<del>'' @ args ! 1 @ ''</del>''
                         else ''<code>'' @ args ! 1 @ ''</code>'')
         in case py_int (args ! 2) of
              None \<Rightarrow> (Some ValueError, t)
            | Some mid \<Rightarrow>
                (let t1 = emit (EditMessageText (channel_id t) mid msg_text Html) t;
                     t2 = t1\<lparr>conn := update (conn t1) (args ! 1) (args ! 0 = ''m'')\<rparr>;
                     t3 = emit (EditReplyMarkup None) t2
                 in (None, emit (Answer None) t3))))"

subsection \<open>Commands\<close>

text \<open>\<open>msg.command\<close> is the command name followed by its arguments.\<close>

definition approval_prompt :: "int \<Rightarrow> int \<Rightarrow> action" where
  "approval_prompt owner chat =
     SendMessage owner
       (''User ['' @ str_int chat @ ''](tg://user?id='' @ str_int chat
        @ '') request to grant talk power'')
       Markdown
       (Some [[InlineKeyboardButton ''Agree'' (''account grant '' @ str_int chat),
               InlineKeyboardButton ''Deny'' (''account deny '' @ str_int chat)],
              [InlineKeyboardButton ''Ignore'' ''ignore'']])"

definition handle_auth :: "Tracker \<Rightarrow> nat \<Rightarrow> int \<Rightarrow> string list \<Rightarrow> error option \<times> Tracker" where
  "handle_auth t now chat command =
     (let (flooded, t1) = flood_check t now chat 1200 in
      if flooded then (None, t1)
      else if query_authorized_user t1 chat
      then (None, emit (Reply chat ''Already authorized'' None) t1)
      else if length command = 1
      then (None, t1\<lparr>outbox := outbox t1 @ map (\<lambda>owner. approval_prompt owner chat) (owners t1),
                      next_message_id := next_message_id t1 + int (length (owners t1))\<rparr>)
      else if length command = 2 \<and> command ! 1 = password t1
      then (let (e, t2) = insert_authorized_user t1 chat in
            case e of
              Some err \<Rightarrow> (Some err, t2)
            | None \<Rightarrow>
                if owners t2 \<noteq> [] then (None, emit (Reply chat ''Authorized'' None) t2)
                else (None, emit (Reply chat ''Authorized as owner'' None)
                              (t2\<lparr>owners := owners t2 @ [chat]\<rparr>)))
      else (None, t1))"

text \<open>
  The handler \<open>Tracker.query_history\<close>. Unpacking \<open>_, code = msg.command\<close> raises
  \<open>ValueError\<close> unless the list has two elements.
\<close>

definition Tracker_query_history :: "Tracker \<Rightarrow> int \<Rightarrow> string list \<Rightarrow> error option \<times> Tracker" where
  "Tracker_query_history t chat command =
     (if 2 < length command then (None, emit (Reply chat ''Query format error.'' None) t)
      else case command of
             [name, c] \<Rightarrow>
               (case query_history (conn t) c of
                  Some sender \<Rightarrow> (None, emit (Reply chat (''Find match => '' @ str_int sender) None) t)
                | None \<Rightarrow> (None, emit (Reply chat ''404 Not found'' None) t))
           | _ \<Rightarrow> (Some ValueError, t))"

text \<open>
  The handler \<open>delete_user_manual\<close>. \<open>msg.command[1]\<close> raises \<open>IndexError\<close> on a
  list of one element. The three gathered tasks are the notice to the user,
  \<open>delete_authorized_user\<close> and the reply.
\<close>

definition delete_user_manual :: "Tracker \<Rightarrow> int \<Rightarrow> string list \<Rightarrow> error option \<times> Tracker" where
  "delete_user_manual t chat command =
     (if length command \<noteq> 2 then
        (case command of
           name # a # _ \<Rightarrow>
             (case py_int a of
                None \<Rightarrow> (Some ValueError, t)
              | Some user_id \<Rightarrow>
                  if query_authorized_user t user_id
                  then (let (mid, t1) = send_message t user_id ''Access revoked'' Default None;
                            t2 = delete_authorized_user t1 user_id
                        in (None, emit (Reply chat ''Success'' None) t2))
                  else (None, emit (Reply chat ''User not in authorized list'' None) t))
         | _ \<Rightarrow> (Some IndexError, t))
      else (None, t))"

subsection \<open>Accepted texts and a sample state\<close>

text \<open>The texts that pass both checks of the single-line path of \<open>handle_passcode\<close>.\<close>

definition accepted_single_line :: "string \<Rightarrow> bool" where
  "accepted_single_line text =
     (CHR 0x0A \<notin> set text \<and> length text \<le> 30 \<and> PASSCODE_EXP_match text)"

text \<open>
  A bot with owner 1 and authorized user 42, who has submitted \<open>abcde\<close>, posted to
  the channel as message 5.
\<close>

definition sample_tracker :: Tracker where
  "sample_tracker =
     \<lparr>conn = \<lparr>code_tbl = [\<lparr>str = ''abcde'', message_id = 5, fr = 0\<rparr>],
              users_tbl = [(42, 1)],
              history_tbl = [(''abcde'', 42)]\<rparr>,
      redis = \<lparr>tracker_user = {1, 42}, flood = Map.empty\<rparr>,
      channel_id = - 100,
      password = ''secret'',
      owners = [1],
      outbox = [],
      next_message_id = 6\<rparr>"

text \<open>
  The lines of a multi-line text that are neither skipped (blank, or starting with
  \<open>#\<close>) nor pass the two checks of the loop.
\<close>

definition rejected_line :: "string \<Rightarrow> bool" where
  "rejected_line passcode =
     (passcode \<noteq> [] \<and> (if startswith passcode CHR ''#'' then False
                          else if 35 < length passcode then True
                          else if PASSCODE_EXP_match passcode then False else True))"

definition accepted_line :: "string \<Rightarrow> bool" where
  "accepted_line passcode =
     (passcode \<noteq> [] \<and> (if startswith passcode CHR ''#'' then False
                          else if 35 < length passcode then False
                          else PASSCODE_EXP_match passcode))"

text \<open>The multi-line text of the example in the specification.\<close>

definition example_text :: string where
  "example_text = ''#comment'' @ [CHR 0x0A] @ ''validcode1'' @ [CHR 0x0A, CHR 0x0A]
                  @ ''validcode1'' @ [CHR 0x0A] @ ''badcode!''"

section \<open>Normalisation\<close>

lemma code_point_char_of: "n < 256 \<Longrightarrow> code_point (char_of n) = n"
  by (simp add: code_point_def)



lemma find_None_list_ex: "(find P xs = None) = (\<not> list_ex P xs)"
  by (induction xs) auto

lemma find_append_new:
  "\<not> list_ex P xs \<Longrightarrow> P x \<Longrightarrow> find P (xs @ [x]) = Some x"
  by (induction xs) auto




section \<open>Numbers and words\<close>

lemma code_point_digit_chr: "d < 10 \<Longrightarrow> code_point (digit_chr d) = 48 + d"
  by (simp add: digit_chr_def code_point_char_of)

lemma is_digit_digit_chr: "d < 10 \<Longrightarrow> is_digit (digit_chr d)"
  by (simp add: is_digit_def code_point_digit_chr)

lemma str_nat_digits: "list_all is_digit (str_nat n) \<and> str_nat n \<noteq> []"
proof (induction n rule: str_nat.induct)
  case (1 n)
  show ?case
  proof (cases "n < 10")
    case True
    then show ?thesis by (subst (1 2) str_nat.simps) (simp add: is_digit_digit_chr)
  next
    case False
    with 1 show ?thesis by (subst (1 2) str_nat.simps) (simp add: is_digit_digit_chr)
  qed
qed

lemma is_digit_not_underscore: "is_digit c \<Longrightarrow> c \<noteq> CHR ''_''"
  by (auto simp: is_digit_def code_point_def)

lemma filter_digits: "list_all is_digit s \<Longrightarrow> filter (\<lambda>c. c \<noteq> CHR ''_'') s = s"
  by (induction s) (auto dest: is_digit_not_underscore)

lemma parse_nat_snoc:
  "list_all is_digit s \<Longrightarrow> is_digit c \<Longrightarrow> parse_nat (s @ [c]) = 10 * parse_nat s + (code_point c - 48)"
  by (simp add: parse_nat_def filter_digits is_digit_not_underscore)

lemma parse_nat_str_nat: "parse_nat (str_nat n) = n"
proof (induction n rule: str_nat.induct)
  case (1 n)
  show ?case
  proof (cases "n < 10")
    case True
    then show ?thesis
      by (subst str_nat.simps) (simp add: parse_nat_def is_digit_not_underscore is_digit_digit_chr code_point_digit_chr)
  next
    case False
    with 1 have "parse_nat (str_nat (n div 10)) = n div 10" by simp
    then show ?thesis
      using False
      by (subst str_nat.simps)
         (simp add: parse_nat_snoc str_nat_digits is_digit_digit_chr code_point_digit_chr)
  qed
qed

lemma int_body_digits: "list_all is_digit s \<Longrightarrow> s \<noteq> [] \<Longrightarrow> int_body s"
  by (induction s rule: int_body.induct) (auto dest: is_digit_not_underscore)

lemma is_digit_not_int_space: "is_digit c \<Longrightarrow> \<not> int_space c"
  by (auto simp: is_digit_def int_space_def Let_def)

lemma is_digit_not_space: "is_digit c \<Longrightarrow> \<not> is_space c"
  by (auto simp: is_digit_def is_space_def Let_def)

lemma is_digit_not_sign: "is_digit c \<Longrightarrow> c \<noteq> CHR ''-'' \<and> c \<noteq> CHR ''+''"
  by (auto simp: is_digit_def code_point_def)

lemma py_int_str_int: "py_int (str_int i) = Some i"
proof -
  obtain c cs where d: "str_nat (nat \<bar>i\<bar>) = c # cs"
    using str_nat_digits [of "nat \<bar>i\<bar>"] by (cases "str_nat (nat \<bar>i\<bar>)") auto
  have dig: "list_all is_digit (c # cs)"
    using str_nat_digits [of "nat \<bar>i\<bar>"] d by simp
  then have c: "is_digit c" by simp
  have last: "\<not> int_space (last (c # cs))"
    using dig by (metis is_digit_not_int_space last_in_set list.distinct(1) list_all_iff)
  have pn: "parse_nat (c # cs) = nat \<bar>i\<bar>"
    using parse_nat_str_nat [of "nat \<bar>i\<bar>"] d by simp
  have ib: "int_body (c # cs)"
    using int_body_digits [OF dig] by simp
  show ?thesis
  proof (cases "i < 0")
    case True
    then have s: "str_int i = CHR ''-'' # c # cs"
      using d by (simp add: str_int_def abs_if)
    have strip: "dropWhile int_space (rev (dropWhile int_space (rev (CHR ''-'' # c # cs)))) = CHR ''-'' # c # cs"
      using last by (cases "rev cs") (auto simp: int_space_def code_point_def Let_def)
    show ?thesis
      unfolding py_int_def s strip using ib pn True by simp
  next
    case False
    then have s: "str_int i = c # cs"
      using d by (simp add: str_int_def abs_if)
    have strip: "dropWhile int_space (rev (dropWhile int_space (rev (c # cs)))) = c # cs"
      using last is_digit_not_int_space [OF c] by (cases "rev cs") auto
    show ?thesis
      unfolding py_int_def s strip using ib pn False is_digit_not_sign [OF c] by simp
  qed
qed

lemma str_int_no_space: "list_all (\<lambda>c. \<not> is_space c) (str_int i)"
proof -
  have "list_all (\<lambda>c. \<not> is_space c) (str_nat n)" for n
    using str_nat_digits [of n] by (auto simp: list_all_iff dest: is_digit_not_space)
  moreover have "\<not> is_space CHR ''-''"
    by (simp add: is_space_def code_point_def)
  ultimately show ?thesis by (simp add: str_int_def)
qed

lemma str_int_nonempty: "str_int i \<noteq> []"
  using str_nat_digits by (simp add: str_int_def)

lemma split_from_word:
  "list_all (\<lambda>c. \<not> is_space c) u \<Longrightarrow> split_from w (u @ rest) = split_from (w @ u) rest"
  by (induction u arbitrary: w) auto

lemma split_from_blank:
  "w \<noteq> [] \<Longrightarrow> split_from w (CHR '' '' # rest) = w # split_from [] rest"
  by (simp add: is_space_def code_point_def)

lemma split_three:
  assumes "list_all (\<lambda>c. \<not> is_space c) a" "a \<noteq> []"
    and "list_all (\<lambda>c. \<not> is_space c) b" "b \<noteq> []"
    and "list_all (\<lambda>c. \<not> is_space c) c" "c \<noteq> []"
  shows "split (a @ '' '' @ b @ '' '' @ c) = [a, b, c]"
proof -
  have shape: "a @ '' '' @ b @ '' '' @ c = a @ CHR '' '' # b @ CHR '' '' # c"
    by simp
  have wa: "split_from [] (a @ X) = split_from a X" for X
    using split_from_word [OF assms(1), of "[]" X] by simp
  have wb: "split_from [] (b @ X) = split_from b X" for X
    using split_from_word [OF assms(3), of "[]" X] by simp
  have wc: "split_from [] c = [c]"
    using split_from_word [OF assms(5), of "[]" "[]"] assms(6) by simp
  show ?thesis
    unfolding shape split_def wa split_from_blank [OF assms(2)] wb split_from_blank [OF assms(4)] wc
    by (rule refl)
qed





lemma sample_authorized: "query_authorized_user sample_tracker 42"
  by (simp add: query_authorized_user_def sample_tracker_def)


section \<open>Button presses on account prompts\<close>




section \<open>The commands \<open>/del\<close> and \<open>/h\<close>\<close>

lemma delete_user_manual_two: "length command = 2 \<Longrightarrow> delete_user_manual t chat command = (None, t)"
  by (simp add: delete_user_manual_def)

text \<open>
  C2 does not hold of the handler. The guard of \<open>delete_user_manual\<close> is
  \<open>len(msg.command) != 2\<close>, so \<open>/del 42\<close>, with its one argument, skips the
  body: user 42 is authorized and stays so, nothing is sent and nothing is replied.
\<close>

theorem delete_user_manual_one_argument_ignored:
  "query_authorized_user sample_tracker 42
   \<and> delete_user_manual sample_tracker 1 [''del'', ''42''] = (None, sample_tracker)"
  by (simp add: delete_user_manual_def sample_authorized)

text \<open>
  C4 does not hold of the handler for zero arguments. The guard of
  \<open>Tracker.query_history\<close> is \<open>len(msg.command) > 2\<close>, so \<open>/h\<close> alone reaches
  the unpacking of \<open>msg.command\<close> into two names, which raises; no reply is made.
\<close>

theorem query_history_no_argument_raises:
  "Tracker_query_history sample_tracker 1 [''h''] = (Some ValueError, sample_tracker)"
  by (simp add: Tracker_query_history_def)

text \<open>The other argument counts of the two commands.\<close>

lemma Tracker_query_history_many:
  "2 < length command \<Longrightarrow>
   Tracker_query_history t chat command = (None, emit (Reply chat ''Query format error.'' None) t)"
  by (simp add: Tracker_query_history_def)

lemma Tracker_query_history_one:
  "Tracker_query_history t chat [name, c]
   = (None,
      emit (Reply chat (case query_history (conn t) c of
                          Some sender \<Rightarrow> ''Find match => '' @ str_int sender
                        | None \<Rightarrow> ''404 Not found'') None) t)"
  by (simp add: Tracker_query_history_def split: option.splits)

lemma query_history_prefix_example:
  "query_history \<lparr>code_tbl = [], users_tbl = [], history_tbl = [(''other1'', 3), (''code123'', 7)]\<rparr> ''Cod''
   = Some 7"
  by code_simp

lemma delete_user_manual_no_argument:
  "delete_user_manual t chat [name] = (Some IndexError, t)"
  by (simp add: delete_user_manual_def)

section \<open>Passcode submission, step by step\<close>

lemma query_None_iff: "(query db c = None) = (\<not> list_ex (\<lambda>r. str r = lower c) (code_tbl db))"
  by (simp add: query_def find_None_list_ex [symmetric] split: option.splits)

lemma insert_code_new:
  "query db c = None \<Longrightarrow>
   insert_code db c mid
   = Inr (db\<lparr>code_tbl := code_tbl db @ [\<lparr>str = lower c, message_id = mid, fr = 0\<rparr>]\<rparr>)"
  by (simp add: query_None_iff insert_code_def)

lemma query_after_append:
  "query db c = None \<Longrightarrow> lower c' = lower c \<Longrightarrow> code_tbl db' = code_tbl db @ [\<lparr>str = lower c, message_id = mid, fr = 0\<rparr>] \<Longrightarrow>
   query db' c' = Some \<lparr>status_message_id = mid, FR = False\<rparr>"
proof -
  assume "query db c = None" and same: "lower c' = lower c"
    and tbl: "code_tbl db' = code_tbl db @ [\<lparr>str = lower c, message_id = mid, fr = 0\<rparr>]"
  then have "\<not> list_ex (\<lambda>r. str r = lower c) (code_tbl db)"
    by (simp add: query_None_iff)
  then have "find (\<lambda>r. str r = lower c) (code_tbl db @ [\<lparr>str = lower c, message_id = mid, fr = 0\<rparr>])
             = Some \<lparr>str = lower c, message_id = mid, fr = 0\<rparr>"
    by (rule find_append_new) simp
  then show ?thesis
    by (simp add: query_def same tbl mk_CodeStatus_def)
qed

lemma store_passcode_new:
  "query (conn t) p = None \<Longrightarrow>
   store_passcode t p mid chat
   = (None, t\<lparr>conn := (conn t)\<lparr>code_tbl := code_tbl (conn t) @ [\<lparr>str = lower p, message_id = mid, fr = 0\<rparr>],
                            history_tbl := history_tbl (conn t) @ [(lower p, chat)]\<rparr>\<rparr>)"
  by (simp add: store_passcode_def insert_code_new insert_history_def)

lemma handle_passcode_new:
  assumes "accepted_single_line text" and "query (conn t) text = None"
  shows "handle_passcode t chat text
         = (None,
            t\<lparr>conn := (conn t)\<lparr>code_tbl := code_tbl (conn t)
                                   @ [\<lparr>str = lower text, message_id = next_message_id t, fr = 0\<rparr>],
                               history_tbl := history_tbl (conn t) @ [(lower text, chat)]\<rparr>,
              outbox := outbox t @ [SendMessage (channel_id t) (''<code>'' @ text @ ''</code>'') Html None,
                                    Reply chat ''Send successful'' None],
              next_message_id := next_message_id t + 1\<rparr>)"
  using assms
  by (simp add: handle_passcode_def accepted_single_line_def send_message_def
                store_passcode_new emit_def)

lemma handle_passcode_duplicate:
  assumes "accepted_single_line text" and "query (conn t) text = Some result"
  shows "handle_passcode t chat text
         = (None,
            t\<lparr>outbox := outbox t @
                [Reply chat
                   (''Passcode exist, '' @ (if \<not> FR result then ''mark passcode'' else ''undo mark'')
                    @ '' as FR?'')
                   (Some [[toggle_button text result]])]\<rparr>)"
  using assms
  by (simp add: handle_passcode_def accepted_single_line_def emit_def)

lemma handle_passcode_rejected:
  assumes "CHR 0x0A \<notin> set text" and "30 < length text \<or> \<not> PASSCODE_EXP_match text"
  shows "handle_passcode t chat text
         = (None,
            t\<lparr>outbox := outbox t @
                [Reply chat (if 30 < length text then ''Passcode length exceed''
                             else ''Passcode format error'') None]\<rparr>)"
  using assms
  by (auto simp: handle_passcode_def emit_def)

lemma loop_skip:
  "passcode = [] \<or> startswith passcode CHR ''#'' \<Longrightarrow>
   multiline_loop chat (passcode # rest) ls t = multiline_loop chat rest ls t"
  by auto

lemma loop_rejected:
  "rejected_line passcode \<Longrightarrow>
   multiline_loop chat (passcode # rest) ls t
   = multiline_loop chat rest (ls\<lparr>error_codes := error_codes ls @ [passcode]\<rparr>) t"
  by (auto simp: rejected_line_def split: if_splits)

lemma loop_duplicate:
  "accepted_line passcode \<Longrightarrow> query (conn t) passcode = Some result \<Longrightarrow>
   multiline_loop chat (passcode # rest) ls t
   = multiline_loop chat rest (ls\<lparr>duplicate_codes := duplicate_codes ls @ [passcode]\<rparr>) t"
  by (auto simp: accepted_line_def split: if_splits)

lemma loop_new:
  "accepted_line passcode \<Longrightarrow> query (conn t) passcode = None \<Longrightarrow>
   multiline_loop chat (passcode # rest) ls t
   = multiline_loop chat rest (ls\<lparr>count := count ls + 1, status_message := True\<rparr>)
       (t\<lparr>conn := (conn t)\<lparr>code_tbl := code_tbl (conn t)
                               @ [\<lparr>str = lower passcode, message_id = next_message_id t, fr = 0\<rparr>],
                           history_tbl := history_tbl (conn t) @ [(lower passcode, chat)]\<rparr>,
          outbox := outbox t
            @ (if status_message ls then [] else [Reply chat ''Sending passcode (interval: 2s)'' None])
            @ [SendMessage (channel_id t) (''<code>'' @ passcode @ ''</code>'') Html None, Sleep 2],
          next_message_id := next_message_id t + 1\<rparr>)"
  by (cases t; cases ls)
     (auto simp: accepted_line_def send_message_def emit_def store_passcode_new Let_def
           split: if_splits)

lemma line_cases:
  "passcode = [] \<or> startswith passcode CHR ''#'' \<or> rejected_line passcode \<or> accepted_line passcode"
  by (auto simp: rejected_line_def accepted_line_def)

lemma loop_ok_errors:
  "fst (multiline_loop chat ps ls t) = None
   \<and> error_codes (fst (snd (multiline_loop chat ps ls t))) = error_codes ls @ filter rejected_line ps"
proof (induction ps arbitrary: ls t)
  case Nil
  show ?case by simp
next
  case (Cons p ps)
  consider (skip) "p = [] \<or> startswith p CHR ''#''"
    | (bad) "rejected_line p"
    | (dup) r where "accepted_line p" "query (conn t) p = Some r"
    | (new) "accepted_line p" "query (conn t) p = None"
    using line_cases [of p] by (cases "query (conn t) p") auto
  then show ?case
  proof cases
    case skip
    then have "\<not> rejected_line p" by (auto simp: rejected_line_def)
    then show ?thesis using Cons [of ls t] by (simp only: loop_skip [OF skip] filter.simps if_False simp_thms)
  next
    case bad
    show ?thesis
      using Cons [of "ls\<lparr>error_codes := error_codes ls @ [p]\<rparr>" t] bad
      by (simp only: loop_rejected [OF bad]) simp
  next
    case dup
    then have "\<not> rejected_line p" by (auto simp: rejected_line_def accepted_line_def split: if_splits)
    then show ?thesis
      using Cons [of "ls\<lparr>duplicate_codes := duplicate_codes ls @ [p]\<rparr>" t]
      by (simp only: loop_duplicate [OF dup]) simp
  next
    case new
    then have nr: "\<not> rejected_line p" by (auto simp: rejected_line_def accepted_line_def split: if_splits)
    show ?thesis
      unfolding loop_new [OF new]
      using nr Cons [of "ls\<lparr>count := count ls + 1, status_message := True\<rparr>"] by simp
  qed
qed

lemma handle_multiline_summary:
  "handle_multiline_passcode t chat text
   = (let r = multiline_loop chat (splitlines text) loop_init t;
          ls' = fst (snd r)
      in (None, emit (if status_message ls' then EditStatus (summary ls')
                      else Reply chat (summary ls') None) (snd (snd r))))"
  using loop_ok_errors [of chat "splitlines text" loop_init t]
  by (cases "multiline_loop chat (splitlines text) loop_init t")
     (auto simp: handle_multiline_passcode_def Let_def)

section \<open>Facts about the sample state\<close>

lemma sample_query_ABCDE:
  "query (conn sample_tracker) ''ABCDE'' = Some \<lparr>status_message_id = 5, FR = False\<rparr>"
  by code_simp

lemma sample_query_fresh1: "query (conn sample_tracker) ''fresh1'' = None"
  by code_simp

lemma accepted_ABCDE: "accepted_single_line ''ABCDE'' \<and> accepted_line ''ABCDE''"
  by code_simp

lemma accepted_fresh1: "accepted_single_line ''fresh1''"
  by code_simp

lemma lower_fresh1: "lower ''fresh1'' = ''fresh1''"
  by code_simp

lemma bad_facts:
  "CHR 0x0A \<notin> set ''bad!'' \<and> \<not> PASSCODE_EXP_match ''bad!'' \<and> rejected_line ''bad!''
   \<and> \<not> PASSCODE_EXP_match ''#note'' \<and> startswith ''#note'' CHR ''#''"
  by code_simp

lemma note_lines:
  "splitlines (''#note'' @ [CHR 0x0A] @ ''bad!'') = [''#note'', ''bad!'']"
  by code_simp

lemma note_summary:
  "summary \<lparr>count = 0, error_codes = [''bad!''], duplicate_codes = [], status_message = False\<rparr>
   = ''Error codes:'' @ [CHR 0x0A] @ ''<code>bad!</code>'' @ [CHR 0x0A, CHR 0x0A, CHR 0x0A]
     @ ''Success send: 0 passcode(s)''"
  by code_simp

lemma note_loop:
  "multiline_loop chat [''#note'', ''bad!''] loop_init t
   = (None, \<lparr>count = 0, error_codes = [''bad!''], duplicate_codes = [], status_message = False\<rparr>, t)"
proof -
  have "multiline_loop chat [''#note'', ''bad!''] loop_init t = multiline_loop chat [''bad!''] loop_init t"
    using bad_facts by (intro loop_skip) simp
  also have "\<dots> = multiline_loop chat [] (loop_init\<lparr>error_codes := error_codes loop_init @ [''bad!'']\<rparr>) t"
    using bad_facts by (intro loop_rejected) simp
  finally show ?thesis by (simp add: loop_init_def)
qed

lemma repeat_facts:
  "accepted_line ''fresh1''
   \<and> splitlines (''fresh1'' @ [CHR 0x0A]) = [''fresh1'']
   \<and> CHR 0x0A \<in> set (''fresh1'' @ [CHR 0x0A])
   \<and> summary (loop_init\<lparr>duplicate_codes := [''fresh1'']\<rparr>)
     = [CHR 0x0A] @ ''Duplicate codes:'' @ [CHR 0x0A] @ ''<code>fresh1</code>''
       @ [CHR 0x0A, CHR 0x0A] @ ''Success send: 0 passcode(s)''"
  by code_simp

section \<open>Rejected texts\<close>

text \<open>
  C5, as the handler behaves. A single-line text longer than 30, or one that fails
  the pattern, gets the matching error reply (the length is looked at first) and
  nothing else changes. In a multi-line text a line that is neither blank nor a
  \<open>#\<close> comment and is longer than 35 or fails the pattern is added to the error
  list while the state is left alone, and the summary that closes the handler is
  built from exactly these lines. Blank lines and \<open>#\<close> lines fail the pattern too,
  but they are skipped and never reported.
\<close>

theorem invalid_text_no_mutation:
  "(CHR 0x0A \<notin> set text \<and> (30 < length text \<or> \<not> PASSCODE_EXP_match text) \<longrightarrow>
      handle_passcode t chat text
      = (None, t\<lparr>outbox := outbox t @
                   [Reply chat (if 30 < length text then ''Passcode length exceed''
                                else ''Passcode format error'') None]\<rparr>))
   \<and> (rejected_line passcode \<longrightarrow>
        multiline_loop chat (passcode # rest) ls t
        = multiline_loop chat rest (ls\<lparr>error_codes := error_codes ls @ [passcode]\<rparr>) t)
   \<and> (CHR 0x0A \<in> set mtext \<longrightarrow>
        (let r = multiline_loop chat (splitlines mtext) loop_init t;
             ls' = fst (snd r)
         in error_codes ls' = filter rejected_line (splitlines mtext)
            \<and> handle_passcode t chat mtext
              = (None, emit (if status_message ls' then EditStatus (summary ls')
                             else Reply chat (summary ls') None) (snd (snd r)))))"
proof -
  have c: "error_codes (fst (snd (multiline_loop chat (splitlines mtext) loop_init t)))
           = filter rejected_line (splitlines mtext)"
    using loop_ok_errors [of chat "splitlines mtext" loop_init t] by (simp add: loop_init_def)
  have d: "handle_passcode t chat mtext = handle_multiline_passcode t chat mtext"
    if "CHR 0x0A \<in> set mtext"
    using that by (simp add: handle_passcode_def)
  show ?thesis
    using handle_passcode_rejected [of "text" t chat] loop_rejected [of passcode chat rest ls t] c d
    by (simp add: handle_multiline_summary Let_def)
qed

theorem invalid_text_no_mutation_witness:
  "CHR 0x0A \<notin> set ''bad!'' \<and> \<not> PASSCODE_EXP_match ''bad!''
   \<and> handle_passcode sample_tracker 42 ''bad!''
     = (None, sample_tracker\<lparr>outbox := outbox sample_tracker
                                @ [Reply 42 ''Passcode format error'' None]\<rparr>)
   \<and> rejected_line ''bad!''
   \<and> multiline_loop 42 [''bad!''] loop_init sample_tracker
     = multiline_loop 42 [] (loop_init\<lparr>error_codes := error_codes loop_init @ [''bad!'']\<rparr>) sample_tracker
   \<and> CHR 0x0A \<in> set (''#note'' @ [CHR 0x0A] @ ''bad!'')
   \<and> error_codes (fst (snd (multiline_loop 42 (splitlines (''#note'' @ [CHR 0x0A] @ ''bad!''))
                              loop_init sample_tracker)))
     = [''bad!'']"
proof -
  have nl: "CHR 0x0A \<in> set (''#note'' @ [CHR 0x0A] @ ''bad!'')"
    by simp
  have flt: "filter rejected_line (splitlines (''#note'' @ [CHR 0x0A] @ ''bad!'')) = [''bad!'']"
    unfolding note_lines by code_simp
  note inst = invalid_text_no_mutation
    [of "''bad!''" sample_tracker 42 "''bad!''" "[]" loop_init "''#note'' @ [CHR 0x0A] @ ''bad!''"]
  from inst bad_facts have a: "handle_passcode sample_tracker 42 ''bad!''
     = (None, sample_tracker\<lparr>outbox := outbox sample_tracker
                                @ [Reply 42 ''Passcode format error'' None]\<rparr>)"
    by simp
  from inst bad_facts have b: "multiline_loop 42 [''bad!''] loop_init sample_tracker
     = multiline_loop 42 [] (loop_init\<lparr>error_codes := error_codes loop_init @ [''bad!'']\<rparr>) sample_tracker"
    by blast
  from inst nl have "error_codes (fst (snd (multiline_loop 42 (splitlines (''#note'' @ [CHR 0x0A] @ ''bad!''))
                              loop_init sample_tracker)))
     = filter rejected_line (splitlines (''#note'' @ [CHR 0x0A] @ ''bad!''))"
    unfolding Let_def by blast
  with flt have c: "error_codes (fst (snd (multiline_loop 42 (splitlines (''#note'' @ [CHR 0x0A] @ ''bad!''))
                              loop_init sample_tracker))) = [''bad!'']"
    by simp
  from a b c nl bad_facts show ?thesis by blast
qed

text \<open>
  The claim as written fails on a comment line: \<open>#note\<close> fails the pattern, yet the
  summary for the two lines \<open>#note\<close> and \<open>bad!\<close> lists only \<open>bad!\<close>.
\<close>

theorem invalid_line_counterexample:
  "''#note'' \<in> set (splitlines (''#note'' @ [CHR 0x0A] @ ''bad!''))
   \<and> \<not> PASSCODE_EXP_match ''#note''
   \<and> handle_passcode sample_tracker 42 (''#note'' @ [CHR 0x0A] @ ''bad!'')
     = (None,
        sample_tracker\<lparr>outbox :=
          [Reply 42 (''Error codes:'' @ [CHR 0x0A] @ ''<code>bad!</code>''
                     @ [CHR 0x0A, CHR 0x0A, CHR 0x0A] @ ''Success send: 0 passcode(s)'') None]\<rparr>)"
proof -
  have "handle_passcode sample_tracker 42 (''#note'' @ [CHR 0x0A] @ ''bad!'')
        = handle_multiline_passcode sample_tracker 42 (''#note'' @ [CHR 0x0A] @ ''bad!'')"
    by (simp add: handle_passcode_def)
  also have "\<dots> = (None, emit (Reply 42 (summary \<lparr>count = 0, error_codes = [''bad!''], duplicate_codes = [], status_message = False\<rparr>) None) sample_tracker)"
    unfolding handle_multiline_summary note_lines note_loop by (simp add: Let_def)
  finally have run: "handle_passcode sample_tracker 42 (''#note'' @ [CHR 0x0A] @ ''bad!'')
     = (None,
        sample_tracker\<lparr>outbox :=
          [Reply 42 (''Error codes:'' @ [CHR 0x0A] @ ''<code>bad!</code>''
                     @ [CHR 0x0A, CHR 0x0A, CHR 0x0A] @ ''Success send: 0 passcode(s)'') None]\<rparr>)"
    unfolding note_summary by (simp add: emit_def sample_tracker_def)
  have mem: "''#note'' \<in> set (splitlines (''#note'' @ [CHR 0x0A] @ ''bad!''))"
    unfolding note_lines by simp
  from mem bad_facts run show ?thesis by blast
qed

section \<open>History\<close>

lemma multiline_loop_added:
  "\<exists>added. code_tbl (conn (snd (snd (multiline_loop chat ps ls t)))) = code_tbl (conn t) @ added
         \<and> history_tbl (conn (snd (snd (multiline_loop chat ps ls t))))
           = history_tbl (conn t) @ map (\<lambda>r. (str r, chat)) added"
proof (induction ps arbitrary: ls t)
  case Nil
  show ?case by simp
next
  case (Cons p ps)
  consider (skip) "p = [] \<or> startswith p CHR ''#''"
    | (bad) "rejected_line p"
    | (dup) r where "accepted_line p" "query (conn t) p = Some r"
    | (new) "accepted_line p" "query (conn t) p = None"
    using line_cases [of p] by (cases "query (conn t) p") auto
  then show ?case
  proof cases
    case skip
    show ?thesis unfolding loop_skip [OF skip] by (rule Cons.IH)
  next
    case bad
    show ?thesis unfolding loop_rejected [OF bad] by (rule Cons.IH)
  next
    case dup
    show ?thesis unfolding loop_duplicate [OF dup] by (rule Cons.IH)
  next
    case new
    let ?row = "\<lparr>str = lower p, message_id = next_message_id t, fr = 0\<rparr>"
    let ?t1 = "t\<lparr>conn := (conn t)\<lparr>code_tbl := code_tbl (conn t) @ [?row],
                           history_tbl := history_tbl (conn t) @ [(lower p, chat)]\<rparr>,
          outbox := outbox t
            @ (if status_message ls then [] else [Reply chat ''Sending passcode (interval: 2s)'' None])
            @ [SendMessage (channel_id t) (''<code>'' @ p @ ''</code>'') Html None, Sleep 2],
          next_message_id := next_message_id t + 1\<rparr>"
    let ?ls1 = "ls\<lparr>count := count ls + 1, status_message := True\<rparr>"
    from Cons.IH [of ?ls1 ?t1] obtain added where
      a: "code_tbl (conn (snd (snd (multiline_loop chat ps ?ls1 ?t1)))) = code_tbl (conn ?t1) @ added"
      and h: "history_tbl (conn (snd (snd (multiline_loop chat ps ?ls1 ?t1))))
              = history_tbl (conn ?t1) @ map (\<lambda>r. (str r, chat)) added"
      by blast
    have "code_tbl (conn (snd (snd (multiline_loop chat (p # ps) ls t)))) = code_tbl (conn t) @ (?row # added)
          \<and> history_tbl (conn (snd (snd (multiline_loop chat (p # ps) ls t))))
            = history_tbl (conn t) @ map (\<lambda>r. (str r, chat)) (?row # added)"
      unfolding loop_new [OF new] a h by simp
    then show ?thesis by blast
  qed
qed

lemma handle_passcode_added:
  "\<exists>added. code_tbl (conn (snd (handle_passcode t chat text))) = code_tbl (conn t) @ added
         \<and> history_tbl (conn (snd (handle_passcode t chat text)))
           = history_tbl (conn t) @ map (\<lambda>r. (str r, chat)) added"
proof (cases "CHR 0x0A \<in> set text")
  case True
  then have "handle_passcode t chat text = handle_multiline_passcode t chat text"
    by (simp add: handle_passcode_def)
  then show ?thesis
    using multiline_loop_added [of chat "splitlines text" loop_init t]
    by (simp add: handle_multiline_summary Let_def emit_def)
next
  case False
  show ?thesis
  proof (cases "accepted_single_line text")
    case acc: True
    show ?thesis
    proof (cases "query (conn t) text")
      case None
      have "code_tbl (conn (snd (handle_passcode t chat text)))
              = code_tbl (conn t) @ [\<lparr>str = lower text, message_id = next_message_id t, fr = 0\<rparr>]
            \<and> history_tbl (conn (snd (handle_passcode t chat text)))
              = history_tbl (conn t)
                @ map (\<lambda>r. (str r, chat)) [\<lparr>str = lower text, message_id = next_message_id t, fr = 0\<rparr>]"
        by (simp add: handle_passcode_new [OF acc None])
      then show ?thesis by blast
    next
      case (Some r)
      have "code_tbl (conn (snd (handle_passcode t chat text))) = code_tbl (conn t) @ []
            \<and> history_tbl (conn (snd (handle_passcode t chat text)))
              = history_tbl (conn t) @ map (\<lambda>r. (str r, chat)) []"
        by (simp add: handle_passcode_duplicate [OF acc Some])
      then show ?thesis by blast
    qed
  next
    case rej: False
    with False have "30 < length text \<or> \<not> PASSCODE_EXP_match text"
      by (auto simp: accepted_single_line_def)
    then have "code_tbl (conn (snd (handle_passcode t chat text))) = code_tbl (conn t) @ []
            \<and> history_tbl (conn (snd (handle_passcode t chat text)))
              = history_tbl (conn t) @ map (\<lambda>r. (str r, chat)) []"
      by (simp add: handle_passcode_rejected [OF False])
    then show ?thesis by blast
  qed
qed

text \<open>
  C9, as the handlers behave, with submissions handled one after the other. Whatever
  the text, the code rows a submission appends and the history rows it appends
  correspond one to one: each new code row comes with the history row of its key and
  the sender, and there is no other history row. An accepted single-line text that
  is new adds one of each; one whose lower-cased form is stored leaves the whole
  store as it is. In the multi-line loop a line that is new adds one of each, and a
  line whose lower-cased form is stored only joins the duplicate list.
\<close>

theorem history_follows_new_codes:
  "(let old = conn t; new = conn (snd (handle_passcode t chat text));
        added = drop (length (code_tbl old)) (code_tbl new)
    in code_tbl new = code_tbl old @ added
       \<and> history_tbl new = history_tbl old @ map (\<lambda>r. (str r, chat)) added)
   \<and> (accepted_single_line text \<longrightarrow>
        conn (snd (handle_passcode t chat text))
        = (if query (conn t) text = None
           then (conn t)\<lparr>code_tbl := code_tbl (conn t)
                            @ [\<lparr>str = lower text, message_id = next_message_id t, fr = 0\<rparr>],
                         history_tbl := history_tbl (conn t) @ [(lower text, chat)]\<rparr>
           else conn t))
   \<and> (accepted_line passcode \<and> query (conn t) passcode \<noteq> None \<longrightarrow>
        multiline_loop chat (passcode # rest) ls t
        = multiline_loop chat rest (ls\<lparr>duplicate_codes := duplicate_codes ls @ [passcode]\<rparr>) t)
   \<and> (accepted_line passcode \<and> query (conn t) passcode = None \<longrightarrow>
        multiline_loop chat (passcode # rest) ls t
        = multiline_loop chat rest (ls\<lparr>count := count ls + 1, status_message := True\<rparr>)
            (t\<lparr>conn := (conn t)\<lparr>code_tbl := code_tbl (conn t)
                                    @ [\<lparr>str = lower passcode, message_id = next_message_id t, fr = 0\<rparr>],
                                history_tbl := history_tbl (conn t) @ [(lower passcode, chat)]\<rparr>,
               outbox := outbox t
                 @ (if status_message ls then []
                    else [Reply chat ''Sending passcode (interval: 2s)'' None])
                 @ [SendMessage (channel_id t) (''<code>'' @ passcode @ ''</code>'') Html None,
                    Sleep 2],
               next_message_id := next_message_id t + 1\<rparr>))"
proof -
  obtain added where
    c: "code_tbl (conn (snd (handle_passcode t chat text))) = code_tbl (conn t) @ added"
    and h: "history_tbl (conn (snd (handle_passcode t chat text)))
            = history_tbl (conn t) @ map (\<lambda>r. (str r, chat)) added"
    using handle_passcode_added [of t chat "text"] by blast
  have whole: "let old = conn t; new = conn (snd (handle_passcode t chat text));
        added = drop (length (code_tbl old)) (code_tbl new)
    in code_tbl new = code_tbl old @ added
       \<and> history_tbl new = history_tbl old @ map (\<lambda>r. (str r, chat)) added"
    unfolding Let_def c h by simp
  have a: "conn (snd (handle_passcode t chat text))
      = (if query (conn t) text = None
         then (conn t)\<lparr>code_tbl := code_tbl (conn t)
                          @ [\<lparr>str = lower text, message_id = next_message_id t, fr = 0\<rparr>],
                       history_tbl := history_tbl (conn t) @ [(lower text, chat)]\<rparr>
         else conn t)" if acc: "accepted_single_line text"
  proof (cases "query (conn t) text")
    case None
    then show ?thesis by (simp add: handle_passcode_new [OF acc None])
  next
    case (Some r)
    then show ?thesis by (simp add: handle_passcode_duplicate [OF acc Some])
  qed
  have b: "multiline_loop chat (passcode # rest) ls t
        = multiline_loop chat rest (ls\<lparr>duplicate_codes := duplicate_codes ls @ [passcode]\<rparr>) t"
    if "accepted_line passcode" "query (conn t) passcode \<noteq> None"
    using that loop_duplicate [of passcode t _ chat rest ls] by (cases "query (conn t) passcode") auto
  from whole a b loop_new [of passcode t chat rest ls] show ?thesis by blast
qed

theorem history_follows_new_codes_witness:
  "accepted_single_line ''ABCDE''
   \<and> conn (snd (handle_passcode sample_tracker 1 ''ABCDE'')) = conn sample_tracker
   \<and> accepted_single_line ''fresh1''
   \<and> history_tbl (conn (snd (handle_passcode sample_tracker 1 ''fresh1'')))
     = [(''abcde'', 42), (''fresh1'', 1)]
   \<and> accepted_line ''ABCDE''
   \<and> multiline_loop 1 [''ABCDE''] loop_init sample_tracker
     = multiline_loop 1 [] (loop_init\<lparr>duplicate_codes := duplicate_codes loop_init @ [''ABCDE'']\<rparr>)
         sample_tracker
   \<and> accepted_line ''fresh1''
   \<and> history_tbl (conn (snd (snd (multiline_loop 1 [''fresh1''] loop_init sample_tracker))))
     = [(''abcde'', 42), (''fresh1'', 1)]
   \<and> history_tbl (conn (snd (handle_passcode sample_tracker 1 example_text)))
     = history_tbl (conn sample_tracker)
       @ map (\<lambda>r. (str r, 1))
           (drop (length (code_tbl (conn sample_tracker)))
                 (code_tbl (conn (snd (handle_passcode sample_tracker 1 example_text)))))"
proof -
  note dup = history_follows_new_codes [of sample_tracker 1 "''ABCDE''" "''ABCDE''" "[]" loop_init]
  note new = history_follows_new_codes [of sample_tracker 1 "''fresh1''" "''fresh1''" "[]" loop_init]
  note ex = history_follows_new_codes [of sample_tracker 1 example_text "''fresh1''" "[]" loop_init]
  have al: "accepted_line ''fresh1''"
    using repeat_facts by simp
  from dup accepted_ABCDE sample_query_ABCDE
  have a: "conn (snd (handle_passcode sample_tracker 1 ''ABCDE'')) = conn sample_tracker"
    by simp
  from dup accepted_ABCDE sample_query_ABCDE
  have b: "multiline_loop 1 [''ABCDE''] loop_init sample_tracker
     = multiline_loop 1 [] (loop_init\<lparr>duplicate_codes := duplicate_codes loop_init @ [''ABCDE'']\<rparr>)
         sample_tracker"
    by simp
  from new accepted_fresh1 sample_query_fresh1
  have "conn (snd (handle_passcode sample_tracker 1 ''fresh1''))
        = (conn sample_tracker)\<lparr>code_tbl := code_tbl (conn sample_tracker)
                          @ [\<lparr>str = lower ''fresh1'', message_id = next_message_id sample_tracker, fr = 0\<rparr>],
                       history_tbl := history_tbl (conn sample_tracker) @ [(lower ''fresh1'', 1)]\<rparr>"
    by simp
  then have c: "history_tbl (conn (snd (handle_passcode sample_tracker 1 ''fresh1'')))
     = [(''abcde'', 42), (''fresh1'', 1)]"
    by (simp add: lower_fresh1 sample_tracker_def)
  from new al sample_query_fresh1
  have "multiline_loop 1 [''fresh1''] loop_init sample_tracker
        = multiline_loop 1 [] (loop_init\<lparr>count := count loop_init + 1, status_message := True\<rparr>)
            (sample_tracker\<lparr>conn := (conn sample_tracker)\<lparr>code_tbl := code_tbl (conn sample_tracker)
                                    @ [\<lparr>str = lower ''fresh1'', message_id = next_message_id sample_tracker, fr = 0\<rparr>],
                                history_tbl := history_tbl (conn sample_tracker) @ [(lower ''fresh1'', 1)]\<rparr>,
               outbox := outbox sample_tracker
                 @ (if status_message loop_init then []
                    else [Reply 1 ''Sending passcode (interval: 2s)'' None])
                 @ [SendMessage (channel_id sample_tracker) (''<code>'' @ ''fresh1'' @ ''</code>'') Html None,
                    Sleep 2],
               next_message_id := next_message_id sample_tracker + 1\<rparr>)"
    by blast
  then have d: "history_tbl (conn (snd (snd (multiline_loop 1 [''fresh1''] loop_init sample_tracker))))
     = [(''abcde'', 42), (''fresh1'', 1)]"
    by (simp add: lower_fresh1 sample_tracker_def)
  from ex have e: "history_tbl (conn (snd (handle_passcode sample_tracker 1 example_text)))
     = history_tbl (conn sample_tracker)
       @ map (\<lambda>r. (str r, 1))
           (drop (length (code_tbl (conn sample_tracker)))
                 (code_tbl (conn (snd (handle_passcode sample_tracker 1 example_text)))))"
    unfolding Let_def by blast
  from a b c d e accepted_ABCDE accepted_fresh1 al show ?thesis by blast
qed

text \<open>
  The claim as written fails: user 1 submits \<open>ABCDE\<close> while \<open>abcde\<close> is stored, and
  the history still holds the single row of the first sender.
\<close>

theorem resubmission_no_history_counterexample:
  "accepted_single_line ''ABCDE''
   \<and> query (conn sample_tracker) ''ABCDE'' = Some \<lparr>status_message_id = 5, FR = False\<rparr>
   \<and> history_tbl (conn sample_tracker) = [(''abcde'', 42)]
   \<and> history_tbl (conn (snd (handle_passcode sample_tracker 1 ''ABCDE''))) = [(''abcde'', 42)]"
proof -
  have acc: "accepted_single_line ''ABCDE''"
    using accepted_ABCDE by simp
  have "conn (snd (handle_passcode sample_tracker 1 ''ABCDE'')) = conn sample_tracker"
    by (simp add: handle_passcode_duplicate [OF acc sample_query_ABCDE])
  then show ?thesis
    using acc sample_query_ABCDE by (simp add: sample_tracker_def)
qed

section \<open>Keys of the code table\<close>

text \<open>
  The primary key makes an insert on a stored key fail, so no store operation and
  no handler that touches the table can give two rows the same key.
\<close>

lemma query_None_key: "query db c = None \<Longrightarrow> lower c \<notin> set (map str (code_tbl db))"
  by (auto simp: query_None_iff list_ex_iff)

lemma insert_code_present: "query db c = Some r \<Longrightarrow> insert_code db c mid = Inl IntegrityError"
  using query_None_iff [of db c] by (simp add: insert_code_def)

lemma insert_code_keys:
  assumes d: "distinct (map str (code_tbl db))" and ins: "insert_code db c mid = Inr db'"
  shows "distinct (map str (code_tbl db'))"
proof -
  from ins have q: "query db c = None"
    by (simp add: query_None_iff insert_code_def split: if_splits)
  with ins have "code_tbl db' = code_tbl db @ [\<lparr>str = lower c, message_id = mid, fr = 0\<rparr>]"
    by (auto simp: insert_code_new)
  then show ?thesis
    using d query_None_key [OF q] by simp
qed

lemma update_keys: "map str (code_tbl (update db c f)) = map str (code_tbl db)"
  by (simp add: update_def comp_def if_distrib cong: if_cong)

lemma multiline_loop_keys:
  "distinct (map str (code_tbl (conn t))) \<Longrightarrow>
   distinct (map str (code_tbl (conn (snd (snd (multiline_loop chat ps ls t))))))"
proof (induction ps arbitrary: ls t)
  case Nil
  then show ?case by simp
next
  case (Cons p ps)
  consider (skip) "p = [] \<or> startswith p CHR ''#''"
    | (bad) "rejected_line p"
    | (dup) r where "accepted_line p" "query (conn t) p = Some r"
    | (new) "accepted_line p" "query (conn t) p = None"
    using line_cases [of p] by (cases "query (conn t) p") auto
  then show ?case
  proof cases
    case skip
    show ?thesis unfolding loop_skip [OF skip] by (rule Cons.IH [OF Cons.prems])
  next
    case bad
    show ?thesis unfolding loop_rejected [OF bad] by (rule Cons.IH [OF Cons.prems])
  next
    case dup
    show ?thesis unfolding loop_duplicate [OF dup] by (rule Cons.IH [OF Cons.prems])
  next
    case new
    show ?thesis
      unfolding loop_new [OF new]
      using Cons.prems query_None_key [OF new(2)] by (intro Cons.IH) simp
  qed
qed

lemma handle_passcode_keys:
  assumes "distinct (map str (code_tbl (conn t)))"
  shows "distinct (map str (code_tbl (conn (snd (handle_passcode t chat text)))))"
proof (cases "CHR 0x0A \<in> set text")
  case True
  then have "handle_passcode t chat text = handle_multiline_passcode t chat text"
    by (simp add: handle_passcode_def)
  then show ?thesis
    using multiline_loop_keys [OF assms, of chat "splitlines text" loop_init]
    by (simp add: handle_multiline_summary Let_def emit_def)
next
  case False
  show ?thesis
  proof (cases "accepted_single_line text")
    case acc: True
    show ?thesis
    proof (cases "query (conn t) text")
      case None
      then show ?thesis
        using assms query_None_key [OF None] by (simp add: handle_passcode_new [OF acc None])
    next
      case (Some r)
      then show ?thesis
        using assms by (simp add: handle_passcode_duplicate [OF acc Some])
    qed
  next
    case rej: False
    with False have "30 < length text \<or> \<not> PASSCODE_EXP_match text"
      by (auto simp: accepted_single_line_def)
    then show ?thesis
      using assms by (simp add: handle_passcode_rejected [OF False])
  qed
qed

lemma account_callback_code_tbl:
  "code_tbl (conn (snd (account_callback t sub_arg user_id))) = code_tbl (conn t)"
  by (simp add: account_callback_def insert_authorized_user_def insert_user_def
                delete_authorized_user_def delete_user_def emit_def send_message_def Let_def
           split: sum.splits prod.splits)

lemma handle_callback_query_keys:
  "map str (code_tbl (conn (snd (handle_callback_query t data)))) = map str (code_tbl (conn t))"
  by (simp add: handle_callback_query_def account_callback_code_tbl update_keys emit_def Let_def
           split: list.splits option.splits)



section \<open>Submitting a code twice\<close>







section \<open>The redemption toggle\<close>

lemma word_char_not_space: "word_char c \<Longrightarrow> \<not> is_space c"
  by (auto simp: word_char_def is_space_def Let_def)

lemma accepted_single_line_word:
  assumes "accepted_single_line c"
  shows "list_all (\<lambda>x. \<not> is_space x) c \<and> c \<noteq> []"
proof -
  from assms have nl: "CHR 0x0A \<notin> set c" and m: "PASSCODE_EXP_match c"
    by (simp_all add: accepted_single_line_def)
  have "word_run c"
  proof (rule ccontr)
    assume "\<not> word_run c"
    with m have "c \<noteq> []" "last c = CHR 0x0A"
      by (auto simp: PASSCODE_EXP_match_def)
    then have "CHR 0x0A \<in> set c"
      using last_in_set by metis
    with nl show False by simp
  qed
  then show ?thesis
    by (auto simp: word_run_def list_all_iff dest: word_char_not_space)
qed

lemma find_map_same_key:
  "(\<And>r. key (g r) = key r) \<Longrightarrow>
   find (\<lambda>r. key r = k) (map g xs) = map_option g (find (\<lambda>r. key r = k) xs)"
  by (induction xs) auto

lemma query_update:
  "query (update db c f) c
   = (case query db c of None \<Rightarrow> None | Some s \<Rightarrow> Some (s\<lparr>FR := f\<rparr>))"
proof -
  let ?g = "\<lambda>r. if str r = lower c then r\<lparr>fr := (if f then 1 else 0)\<rparr> else r"
  have "find (\<lambda>r. str r = lower c) (map ?g (code_tbl db))
        = map_option ?g (find (\<lambda>r. str r = lower c) (code_tbl db))"
    by (rule find_map_same_key) simp
  then show ?thesis
    by (cases "find (\<lambda>r. str r = lower c) (code_tbl db)")
       (auto simp: query_def update_def mk_CodeStatus_def dest: find_Some_iff [THEN iffD1])
qed

lemma toggle_data_split:
  assumes "accepted_single_line c"
  shows "split (callback_data (toggle_button c r))
         = [if FR r then ''u'' else ''m'', c, str_int (status_message_id r)]"
proof -
  have v: "list_all (\<lambda>x. \<not> is_space x) (if FR r then ''u'' else ''m'')"
    by (simp add: is_space_def code_point_def)
  have vn: "(if FR r then ''u'' else ''m'') \<noteq> []"
    by simp
  note w = accepted_single_line_word [OF assms]
  show ?thesis
    unfolding toggle_button_def button.sel
    by (rule split_three [OF v vn conjunct1 [OF w] conjunct2 [OF w] str_int_no_space str_int_nonempty])
qed

lemma toggle_press:
  assumes "accepted_single_line c"
  shows "handle_callback_query t (callback_data (toggle_button c r))
         = (None,
            t\<lparr>conn := update (conn t) c (\<not> FR r),
              outbox := outbox t @
                [EditMessageText (channel_id t) (status_message_id r)
                   (if FR r then ''<code>'' @ c @ ''</code>'' else ''<del>'' @ c @ ''</del>'') Html,
                 EditReplyMarkup None, Answer None]\<rparr>)"
  unfolding handle_callback_query_def toggle_data_split [OF assms]
  by (cases t) (simp add: py_int_str_int emit_def Let_def)

lemma resubmit_and_press:
  assumes acc: "accepted_single_line c" and q: "query (conn t) c = Some r"
  shows "handle_callback_query (snd (handle_passcode t chat c)) (callback_data (toggle_button c r))
         = (None,
            t\<lparr>conn := update (conn t) c (\<not> FR r),
              outbox := outbox t @
                [Reply chat
                   (''Passcode exist, '' @ (if \<not> FR r then ''mark passcode'' else ''undo mark'')
                    @ '' as FR?'')
                   (Some [[toggle_button c r]]),
                 EditMessageText (channel_id t) (status_message_id r)
                   (if FR r then ''<code>'' @ c @ ''</code>'' else ''<del>'' @ c @ ''</del>'') Html,
                 EditReplyMarkup None, Answer None]\<rparr>)"
  unfolding handle_passcode_duplicate [OF acc q] snd_conv toggle_press [OF acc]
  by (cases t) simp

lemma sample_abcde:
  "accepted_single_line ''abcde''
   \<and> query (conn sample_tracker) ''abcde'' = Some \<lparr>status_message_id = 5, FR = False\<rparr>"
  by code_simp

text \<open>
  C8. For a stored code \<open>c\<close> with status \<open>r\<close>: submitting \<open>c\<close> again offers the
  action that branches on the current flag (\<open>m\<close> when not redeemed, \<open>u\<close> when
  redeemed); pressing it flips the flag and edits the channel post, struck through
  when the code is now redeemed and in code format otherwise. Doing the same once
  more, with the action offered for the new flag, gives back the status \<open>r\<close> and the
  formatting that belongs to it.
\<close>

theorem toggle_twice_restores:
  assumes acc: "accepted_single_line c" and q: "query (conn t) c = Some r"
  shows "let b1 = toggle_button c r;
             t1 = snd (handle_callback_query (snd (handle_passcode t chat c)) (callback_data b1));
             r1 = r\<lparr>FR := \<not> FR r\<rparr>;
             b2 = toggle_button c r1;
             t2 = snd (handle_callback_query (snd (handle_passcode t1 chat' c)) (callback_data b2))
         in query (conn t1) c = Some r1
            \<and> query (conn t2) c = Some r
            \<and> outbox t1 = outbox t @
                [Reply chat
                   (''Passcode exist, '' @ (if \<not> FR r then ''mark passcode'' else ''undo mark'')
                    @ '' as FR?'')
                   (Some [[b1]]),
                 EditMessageText (channel_id t) (status_message_id r)
                   (if \<not> FR r then ''<del>'' @ c @ ''</del>'' else ''<code>'' @ c @ ''</code>'') Html,
                 EditReplyMarkup None, Answer None]
            \<and> outbox t2 = outbox t1 @
                [Reply chat'
                   (''Passcode exist, '' @ (if FR r then ''mark passcode'' else ''undo mark'')
                    @ '' as FR?'')
                   (Some [[b2]]),
                 EditMessageText (channel_id t) (status_message_id r)
                   (if FR r then ''<del>'' @ c @ ''</del>'' else ''<code>'' @ c @ ''</code>'') Html,
                 EditReplyMarkup None, Answer None]"
proof -
  define r1 where "r1 = r\<lparr>FR := \<not> FR r\<rparr>"
  define t1 where
    "t1 = snd (handle_callback_query (snd (handle_passcode t chat c)) (callback_data (toggle_button c r)))"
  define t2 where
    "t2 = snd (handle_callback_query (snd (handle_passcode t1 chat' c)) (callback_data (toggle_button c r1)))"
  have t1: "t1 = t\<lparr>conn := update (conn t) c (\<not> FR r),
              outbox := outbox t @
                [Reply chat
                   (''Passcode exist, '' @ (if \<not> FR r then ''mark passcode'' else ''undo mark'')
                    @ '' as FR?'')
                   (Some [[toggle_button c r]]),
                 EditMessageText (channel_id t) (status_message_id r)
                   (if FR r then ''<code>'' @ c @ ''</code>'' else ''<del>'' @ c @ ''</del>'') Html,
                 EditReplyMarkup None, Answer None]\<rparr>"
    unfolding t1_def resubmit_and_press [OF acc q] by simp
  have q1: "query (conn t1) c = Some r1"
    by (simp add: t1 query_update q r1_def)
  have t2: "t2 = t1\<lparr>conn := update (conn t1) c (\<not> FR r1),
              outbox := outbox t1 @
                [Reply chat'
                   (''Passcode exist, '' @ (if \<not> FR r1 then ''mark passcode'' else ''undo mark'')
                    @ '' as FR?'')
                   (Some [[toggle_button c r1]]),
                 EditMessageText (channel_id t1) (status_message_id r1)
                   (if FR r1 then ''<code>'' @ c @ ''</code>'' else ''<del>'' @ c @ ''</del>'') Html,
                 EditReplyMarkup None, Answer None]\<rparr>"
    unfolding t2_def resubmit_and_press [OF acc q1] by simp
  have q2: "query (conn t2) c = Some r"
    by (simp add: t2 query_update q1) (simp add: r1_def)
  have o1: "outbox t1 = outbox t @
                [Reply chat
                   (''Passcode exist, '' @ (if \<not> FR r then ''mark passcode'' else ''undo mark'')
                    @ '' as FR?'')
                   (Some [[toggle_button c r]]),
                 EditMessageText (channel_id t) (status_message_id r)
                   (if \<not> FR r then ''<del>'' @ c @ ''</del>'' else ''<code>'' @ c @ ''</code>'') Html,
                 EditReplyMarkup None, Answer None]"
    by (simp add: t1)
  have o2: "outbox t2 = outbox t1 @
                [Reply chat'
                   (''Passcode exist, '' @ (if FR r then ''mark passcode'' else ''undo mark'')
                    @ '' as FR?'')
                   (Some [[toggle_button c r1]]),
                 EditMessageText (channel_id t) (status_message_id r)
                   (if FR r then ''<del>'' @ c @ ''</del>'' else ''<code>'' @ c @ ''</code>'') Html,
                 EditReplyMarkup None, Answer None]"
    by (simp add: t2) (simp add: t1 r1_def)
  from q1 q2 o1 o2 show ?thesis
    unfolding Let_def t1_def [symmetric] r1_def [symmetric] t2_def [symmetric] by blast
qed

theorem toggle_twice_restores_witness:
  "accepted_single_line ''abcde''
   \<and> query (conn sample_tracker) ''abcde'' = Some \<lparr>status_message_id = 5, FR = False\<rparr>
   \<and> query (conn (snd (handle_callback_query (snd (handle_passcode sample_tracker 42 ''abcde''))
                         (callback_data (toggle_button ''abcde'' \<lparr>status_message_id = 5, FR = False\<rparr>)))))
        ''abcde''
     = Some \<lparr>status_message_id = 5, FR = True\<rparr>
   \<and> query (conn (snd (handle_callback_query
            (snd (handle_passcode
                    (snd (handle_callback_query (snd (handle_passcode sample_tracker 42 ''abcde''))
                            (callback_data (toggle_button ''abcde'' \<lparr>status_message_id = 5, FR = False\<rparr>))))
                    1 ''abcde''))
            (callback_data (toggle_button ''abcde'' \<lparr>status_message_id = 5, FR = True\<rparr>)))))
        ''abcde''
     = Some \<lparr>status_message_id = 5, FR = False\<rparr>"
proof -
  note f = sample_abcde
  note run = toggle_twice_restores [OF conjunct1 [OF f] conjunct2 [OF f], of 42 1, unfolded Let_def]
  have upd: "\<lparr>status_message_id = 5, FR = False\<rparr>\<lparr>FR := \<not> FR \<lparr>status_message_id = 5, FR = False\<rparr>\<rparr>
             = \<lparr>status_message_id = 5::int, FR = True\<rparr>"
    by simp
  from run [unfolded upd] f show ?thesis by blast
qed

section \<open>The multi-line example\<close>

lemma example_lines:
  "splitlines example_text = [''#comment'', ''validcode1'', [], ''validcode1'', ''badcode!'']"
  by code_simp

lemma example_line_facts:
  "startswith ''#comment'' CHR ''#'' \<and> accepted_line ''validcode1'' \<and> rejected_line ''badcode!''
   \<and> lower ''validcode1'' = ''validcode1'' \<and> CHR 0x0A \<in> set example_text"
  by code_simp

lemma example_summary:
  "summary \<lparr>count = 1, error_codes = [''badcode!''], duplicate_codes = [''validcode1''],
            status_message = True\<rparr>
   = ''Error codes:'' @ [CHR 0x0A] @ ''<code>badcode!</code>'' @ [CHR 0x0A, CHR 0x0A]
     @ ''Duplicate codes:'' @ [CHR 0x0A] @ ''<code>validcode1</code>'' @ [CHR 0x0A, CHR 0x0A]
     @ ''Success send: 1 passcode(s)''"
  by code_simp

lemma example_loop:
  assumes fresh: "query (conn t) ''validcode1'' = None"
  shows "multiline_loop chat (splitlines example_text) loop_init t
         = (None,
            \<lparr>count = 1, error_codes = [''badcode!''], duplicate_codes = [''validcode1''],
              status_message = True\<rparr>,
            t\<lparr>conn := (conn t)\<lparr>code_tbl := code_tbl (conn t)
                                   @ [\<lparr>str = ''validcode1'', message_id = next_message_id t, fr = 0\<rparr>],
                               history_tbl := history_tbl (conn t) @ [(''validcode1'', chat)]\<rparr>,
              outbox := outbox t @
                [Reply chat ''Sending passcode (interval: 2s)'' None,
                 SendMessage (channel_id t) ''<code>validcode1</code>'' Html None,
                 Sleep 2],
              next_message_id := next_message_id t + 1\<rparr>)"
proof -
  let ?t' = "t\<lparr>conn := (conn t)\<lparr>code_tbl := code_tbl (conn t)
                                   @ [\<lparr>str = lower ''validcode1'', message_id = next_message_id t, fr = 0\<rparr>],
                               history_tbl := history_tbl (conn t) @ [(lower ''validcode1'', chat)]\<rparr>,
              outbox := outbox t
                @ (if status_message loop_init then [] else [Reply chat ''Sending passcode (interval: 2s)'' None])
                @ [SendMessage (channel_id t) (''<code>'' @ ''validcode1'' @ ''</code>'') Html None, Sleep 2],
              next_message_id := next_message_id t + 1\<rparr>"
  let ?ls1 = "loop_init\<lparr>count := count loop_init + 1, status_message := True\<rparr>"
  let ?ls2 = "?ls1\<lparr>duplicate_codes := duplicate_codes ?ls1 @ [''validcode1'']\<rparr>"
  let ?ls3 = "?ls2\<lparr>error_codes := error_codes ?ls2 @ [''badcode!'']\<rparr>"
  have acc: "accepted_line ''validcode1''" and bad: "rejected_line ''badcode!''"
    and com: "''#comment'' = [] \<or> startswith ''#comment'' CHR ''#''"
    using example_line_facts by simp_all
  have q': "query (conn ?t') ''validcode1'' = Some \<lparr>status_message_id = next_message_id t, FR = False\<rparr>"
    by (rule query_after_append [OF fresh refl]) simp
  have "multiline_loop chat (splitlines example_text) loop_init t
        = multiline_loop chat [''validcode1'', [], ''validcode1'', ''badcode!''] loop_init t"
    unfolding example_lines by (rule loop_skip [OF com])
  also have "\<dots> = multiline_loop chat [[], ''validcode1'', ''badcode!''] ?ls1 ?t'"
    by (rule loop_new [OF acc fresh])
  also have "\<dots> = multiline_loop chat [''validcode1'', ''badcode!''] ?ls1 ?t'"
    by (rule loop_skip) simp
  also have "\<dots> = multiline_loop chat [''badcode!''] ?ls2 ?t'"
    by (rule loop_duplicate [OF acc q'])
  also have "\<dots> = multiline_loop chat [] ?ls3 ?t'"
    by (rule loop_rejected [OF bad])
  finally show ?thesis
    using example_line_facts by (simp add: loop_init_def)
qed

text \<open>
  C6. On a store without \<open>validcode1\<close> the example text gives one post to the channel
  (\<open>validcode1\<close>), counts one success, lists the second \<open>validcode1\<close> as a duplicate
  and \<open>badcode!\<close> as an error, and ends with one summary, which edits the status
  notice and reports one passcode sent.
\<close>

theorem multiline_example:
  assumes fresh: "query (conn t) ''validcode1'' = None"
  shows "splitlines example_text = [''#comment'', ''validcode1'', [], ''validcode1'', ''badcode!'']
         \<and> fst (snd (multiline_loop chat (splitlines example_text) loop_init t))
           = \<lparr>count = 1, error_codes = [''badcode!''], duplicate_codes = [''validcode1''],
              status_message = True\<rparr>
         \<and> handle_passcode t chat example_text
           = (None,
              t\<lparr>conn := (conn t)\<lparr>code_tbl := code_tbl (conn t)
                                     @ [\<lparr>str = ''validcode1'', message_id = next_message_id t, fr = 0\<rparr>],
                                 history_tbl := history_tbl (conn t) @ [(''validcode1'', chat)]\<rparr>,
                outbox := outbox t @
                  [Reply chat ''Sending passcode (interval: 2s)'' None,
                   SendMessage (channel_id t) ''<code>validcode1</code>'' Html None,
                   Sleep 2,
                   EditStatus
                     (''Error codes:'' @ [CHR 0x0A] @ ''<code>badcode!</code>'' @ [CHR 0x0A, CHR 0x0A]
                      @ ''Duplicate codes:'' @ [CHR 0x0A] @ ''<code>validcode1</code>''
                      @ [CHR 0x0A, CHR 0x0A] @ ''Success send: 1 passcode(s)'')],
                next_message_id := next_message_id t + 1\<rparr>)"
proof -
  have nl: "CHR 0x0A \<in> set example_text"
    using example_line_facts by simp
  have run: "handle_passcode t chat example_text
        = (None, emit (EditStatus (summary \<lparr>count = 1, error_codes = [''badcode!''],
                                            duplicate_codes = [''validcode1''],
                                            status_message = True\<rparr>))
                   (snd (snd (multiline_loop chat (splitlines example_text) loop_init t))))"
    using nl by (simp add: handle_passcode_def handle_multiline_summary example_loop [OF fresh] Let_def)
  have fin: "handle_passcode t chat example_text
           = (None,
              t\<lparr>conn := (conn t)\<lparr>code_tbl := code_tbl (conn t)
                                     @ [\<lparr>str = ''validcode1'', message_id = next_message_id t, fr = 0\<rparr>],
                                 history_tbl := history_tbl (conn t) @ [(''validcode1'', chat)]\<rparr>,
                outbox := outbox t @
                  [Reply chat ''Sending passcode (interval: 2s)'' None,
                   SendMessage (channel_id t) ''<code>validcode1</code>'' Html None,
                   Sleep 2,
                   EditStatus
                     (''Error codes:'' @ [CHR 0x0A] @ ''<code>badcode!</code>'' @ [CHR 0x0A, CHR 0x0A]
                      @ ''Duplicate codes:'' @ [CHR 0x0A] @ ''<code>validcode1</code>''
                      @ [CHR 0x0A, CHR 0x0A] @ ''Success send: 1 passcode(s)'')],
                next_message_id := next_message_id t + 1\<rparr>)"
    unfolding run example_summary example_loop [OF fresh] snd_conv emit_def
    by (cases t) simp
  have st: "fst (snd (multiline_loop chat (splitlines example_text) loop_init t))
           = \<lparr>count = 1, error_codes = [''badcode!''], duplicate_codes = [''validcode1''],
              status_message = True\<rparr>"
    unfolding example_loop [OF fresh] by simp
  from example_lines st fin show ?thesis by (intro conjI)
qed

theorem multiline_example_witness:
  "query (conn sample_tracker) ''validcode1'' = None
   \<and> fst (snd (multiline_loop 42 (splitlines example_text) loop_init sample_tracker))
     = \<lparr>count = 1, error_codes = [''badcode!''], duplicate_codes = [''validcode1''],
        status_message = True\<rparr>
   \<and> fst (handle_passcode sample_tracker 42 example_text) = None
   \<and> code_tbl (conn (snd (handle_passcode sample_tracker 42 example_text)))
     = [\<lparr>str = ''abcde'', message_id = 5, fr = 0\<rparr>, \<lparr>str = ''validcode1'', message_id = 6, fr = 0\<rparr>]"
proof -
  have fresh: "query (conn sample_tracker) ''validcode1'' = None"
    by code_simp
  note run = multiline_example [OF fresh, of 42]
  from run have a: "fst (snd (multiline_loop 42 (splitlines example_text) loop_init sample_tracker))
     = \<lparr>count = 1, error_codes = [''badcode!''], duplicate_codes = [''validcode1''],
        status_message = True\<rparr>"
    by (rule conjunct1 [OF conjunct2])
  from run have b: "fst (handle_passcode sample_tracker 42 example_text) = None"
    by simp
  from run have "code_tbl (conn (snd (handle_passcode sample_tracker 42 example_text)))
     = code_tbl (conn sample_tracker) @ [\<lparr>str = ''validcode1'', message_id = next_message_id sample_tracker, fr = 0\<rparr>]"
    by simp
  then have c: "code_tbl (conn (snd (handle_passcode sample_tracker 42 example_text)))
     = [\<lparr>str = ''abcde'', message_id = 5, fr = 0\<rparr>, \<lparr>str = ''validcode1'', message_id = 6, fr = 0\<rparr>]"
    by (simp add: sample_tracker_def)
  from fresh a b c show ?thesis by (intro conjI)
qed

section \<open>The flood guard of \<open>/auth\<close>\<close>

lemma handle_auth_flooded:
  "flood_get t now chat \<Longrightarrow> handle_auth t now chat command = (None, t)"
  by (simp add: handle_auth_def flood_check_def)

lemma handle_auth_arms:
  "\<not> flood_get t now chat \<Longrightarrow>
   flood (redis (snd (handle_auth t now chat command))) chat = Some (now + 1200)"
  by (simp add: handle_auth_def flood_check_def query_authorized_user_def emit_def
                insert_authorized_user_def Let_def
           split: sum.splits)

text \<open>
  C10. When no guard is active for the sender, \<open>handle_auth\<close> leaves a guard that
  expires 1200 seconds later, whatever branch it takes afterwards (already
  authorized, approval prompt, secret, wrong arguments, or an exception), and every
  \<open>/auth\<close> of that sender before the expiry returns with the state unchanged. When
  a guard is active the handler returns with the state unchanged: no reply, no new
  expiry.
\<close>

theorem handle_auth_flood_guard:
  "(\<not> flood_get t now chat \<longrightarrow>
      flood (redis (snd (handle_auth t now chat command))) chat = Some (now + 1200)
      \<and> (\<forall>later command'. later < now + 1200 \<longrightarrow>
            handle_auth (snd (handle_auth t now chat command)) later chat command'
            = (None, snd (handle_auth t now chat command))))
   \<and> (flood_get t now chat \<longrightarrow> handle_auth t now chat command = (None, t))"
proof -
  have later: "handle_auth (snd (handle_auth t now chat command)) later chat command'
            = (None, snd (handle_auth t now chat command))"
    if "\<not> flood_get t now chat" "later < now + 1200" for later command'
  proof -
    have "flood_get (snd (handle_auth t now chat command)) later chat"
      using handle_auth_arms [OF that(1), of command] that(2) by (simp add: flood_get_def)
    then show ?thesis by (rule handle_auth_flooded)
  qed
  show ?thesis
    using handle_auth_arms [of t now chat command] handle_auth_flooded [of t now chat command] later
    by blast
qed

theorem handle_auth_flood_guard_witness:
  "\<not> flood_get sample_tracker 100 42
   \<and> flood (redis (snd (handle_auth sample_tracker 100 42 [''auth'']))) 42 = Some 1300
   \<and> flood_get (snd (handle_auth sample_tracker 100 42 [''auth''])) 1299 42
   \<and> handle_auth (snd (handle_auth sample_tracker 100 42 [''auth''])) 1299 42 [''auth'', ''secret'']
     = (None, snd (handle_auth sample_tracker 100 42 [''auth'']))"
proof -
  have n: "\<not> flood_get sample_tracker 100 42"
    by (simp add: flood_get_def sample_tracker_def)
  note first = handle_auth_flood_guard [of sample_tracker 100 42 "[''auth'']"]
  from first n have a: "flood (redis (snd (handle_auth sample_tracker 100 42 [''auth'']))) 42 = Some 1300"
    by simp
  then have g: "flood_get (snd (handle_auth sample_tracker 100 42 [''auth''])) 1299 42"
    by (simp add: flood_get_def)
  note second = handle_auth_flood_guard
    [of "snd (handle_auth sample_tracker 100 42 [''auth''])" 1299 42 "[''auth'', ''secret'']"]
  from second g have b: "handle_auth (snd (handle_auth sample_tracker 100 42 [''auth''])) 1299 42 [''auth'', ''secret'']
     = (None, snd (handle_auth sample_tracker 100 42 [''auth'']))"
    by blast
  from n a g b show ?thesis by blast
qed

end
